theory Spec2Isabelle
  imports Complex_Main "HOL-Library.Sublist"
begin

section \<open>Conversation history and the image-retention policy\<close>

text \<open>
  The conversation history of \<^verbatim>\<open>vlm_agent.py\<close> is a Python list of message
  dictionaries. The \<^verbatim>\<open>content\<close> of a message is either a plain string or a list of
  content items. A content item is a string (a text or a file path), a dictionary whose
  \<^verbatim>\<open>type\<close> is \<^verbatim>\<open>tool_result\<close> and whose own \<^verbatim>\<open>content\<close> is a list of entries, or
  any other object (a text block, a dictionary of another type). An entry of a tool
  result is a dictionary whose \<^verbatim>\<open>type\<close> is \<^verbatim>\<open>image\<close>, or anything else. The string
  carried by \<open>ImageEntry\<close>, \<open>OtherEntry\<close> and \<open>OtherItem\<close> stands for the remaining
  data of the object, which the trimming code never reads.

  The predicate \<^verbatim>\<open>is_image_path\<close> lives in \<^verbatim>\<open>agent/llm_utils/utils.py\<close>; it is a
  parameter \<open>P\<close> of every function below.
\<close>

datatype tool_result_entry = ImageEntry string | OtherEntry string

datatype content_item =
    StrItem string
  | ToolResult "tool_result_entry list"
  | OtherItem string

datatype msg_content = ContentList "content_item list" | ContentStr string

record message =
  role :: string
  content :: msg_content

fun entry_is_image :: "tool_result_entry \<Rightarrow> bool" where
  "entry_is_image (ImageEntry _) = True"
| "entry_is_image (OtherEntry _) = False"

text \<open>
  First pass of \<^verbatim>\<open>_maybe_filter_to_n_most_recent_images\<close>: the number of images. A
  message whose content is a plain string is iterated character by character by the
  Python loop, each character being a one-character string.
\<close>

fun count_item :: "(string \<Rightarrow> bool) \<Rightarrow> content_item \<Rightarrow> nat" where
  "count_item P (StrItem s) = (if P s then 1 else 0)"
| "count_item P (ToolResult es) = length (filter entry_is_image es)"
| "count_item P (OtherItem _) = 0"

fun count_content :: "(string \<Rightarrow> bool) \<Rightarrow> msg_content \<Rightarrow> nat" where
  "count_content P (ContentList cs) = sum_list (map (count_item P) cs)"
| "count_content P (ContentStr s) = length (filter (\<lambda>ch. P [ch]) s)"

definition total_images :: "(string \<Rightarrow> bool) \<Rightarrow> message list \<Rightarrow> nat" where
  "total_images P msgs = sum_list (map (\<lambda>m. count_content P (content m)) msgs)"

text \<open>
  Second pass. The counter \<^verbatim>\<open>images_to_remove\<close> is a Python integer shared by all
  three nested loops; each function takes its current value and returns the new one
  with the rebuilt list.
\<close>

fun trim_entries :: "int \<Rightarrow> tool_result_entry list \<Rightarrow> int \<times> tool_result_entry list" where
  "trim_entries r [] = (r, [])"
| "trim_entries r (e # es) =
     (if entry_is_image e \<and> r > 0 then trim_entries (r - 1) es
      else (case trim_entries r es of (r', es') \<Rightarrow> (r', e # es')))"

fun trim_items :: "(string \<Rightarrow> bool) \<Rightarrow> int \<Rightarrow> content_item list \<Rightarrow> int \<times> content_item list" where
  "trim_items P r [] = (r, [])"
| "trim_items P r (StrItem s # cs) =
     (if P s \<and> r > 0 then trim_items P (r - 1) cs
      else (case trim_items P r cs of (r', cs') \<Rightarrow> (r', StrItem s # cs')))"
| "trim_items P r (ToolResult es # cs) =
     (case trim_entries r es of (r1, es') \<Rightarrow>
        (case trim_items P r1 cs of (r', cs') \<Rightarrow> (r', ToolResult es' # cs')))"
| "trim_items P r (OtherItem x # cs) =
     (case trim_items P r cs of (r', cs') \<Rightarrow> (r', OtherItem x # cs'))"

fun trim_messages :: "(string \<Rightarrow> bool) \<Rightarrow> int \<Rightarrow> message list \<Rightarrow> message list" where
  "trim_messages P r [] = []"
| "trim_messages P r (m # ms) =
     (case content m of
        ContentList cs \<Rightarrow>
          (case trim_items P r cs of (r', cs') \<Rightarrow>
             m\<lparr>content := ContentList cs'\<rparr> # trim_messages P r' ms)
      | ContentStr s \<Rightarrow> m # trim_messages P r ms)"

text \<open>
  The function mutates the message dictionaries of the caller's list; the model returns
  the list as the caller sees it afterwards.
\<close>

definition maybe_filter_to_n_most_recent_images ::
    "(string \<Rightarrow> bool) \<Rightarrow> message list \<Rightarrow> int option \<Rightarrow> message list" where
  "maybe_filter_to_n_most_recent_images P messages images_to_keep =
     (case images_to_keep of
        None \<Rightarrow> messages
      | Some k \<Rightarrow> trim_messages P (int (total_images P messages) - k) messages)"

subsection \<open>Observations of a history\<close>

text \<open>
  The leaves of a history, oldest first: every content item in order, a tool result
  followed by its entries.
\<close>

datatype leaf = LStr string | LTool | LEntry tool_result_entry | LOther string

fun item_leaves :: "content_item \<Rightarrow> leaf list" where
  "item_leaves (StrItem s) = [LStr s]"
| "item_leaves (ToolResult es) = LTool # map LEntry es"
| "item_leaves (OtherItem x) = [LOther x]"

fun content_leaves :: "msg_content \<Rightarrow> leaf list" where
  "content_leaves (ContentList cs) = concat (map item_leaves cs)"
| "content_leaves (ContentStr s) = []"

definition history_leaves :: "message list \<Rightarrow> leaf list" where
  "history_leaves msgs = concat (map (\<lambda>m. content_leaves (content m)) msgs)"

fun leaf_is_image :: "(string \<Rightarrow> bool) \<Rightarrow> leaf \<Rightarrow> bool" where
  "leaf_is_image P (LStr s) = P s"
| "leaf_is_image P LTool = False"
| "leaf_is_image P (LEntry e) = entry_is_image e"
| "leaf_is_image P (LOther _) = False"

text \<open>The history with every image taken out: what no trim may change.\<close>

fun strip_item :: "(string \<Rightarrow> bool) \<Rightarrow> content_item \<Rightarrow> content_item list" where
  "strip_item P (StrItem s) = (if P s then [] else [StrItem s])"
| "strip_item P (ToolResult es) = [ToolResult (filter (\<lambda>e. \<not> entry_is_image e) es)]"
| "strip_item P (OtherItem x) = [OtherItem x]"

fun strip_content :: "(string \<Rightarrow> bool) \<Rightarrow> msg_content \<Rightarrow> msg_content" where
  "strip_content P (ContentList cs) = ContentList (concat (map (strip_item P) cs))"
| "strip_content P (ContentStr s) = ContentStr s"

definition strip_images :: "(string \<Rightarrow> bool) \<Rightarrow> message list \<Rightarrow> message list" where
  "strip_images P msgs = map (\<lambda>m. m\<lparr>content := strip_content P (content m)\<rparr>) msgs"

definition has_list_content :: "message \<Rightarrow> bool" where
  "has_list_content m = (case content m of ContentList _ \<Rightarrow> True | ContentStr _ \<Rightarrow> False)"

section \<open>Python strings\<close>

text \<open>
  A Python \<^verbatim>\<open>str\<close> is modelled as a \<open>string\<close>, one \<open>char\<close> per code point, for code
  points below 256. The whitespace of \<^verbatim>\<open>str.strip()\<close>, \<^verbatim>\<open>str.isspace()\<close> and of
  \<^verbatim>\<open>\s\<close> in a \<^verbatim>\<open>str\<close> pattern is the same set: in this range the code points 9 to 13,
  28 to 32, 133 and 160.
\<close>

definition is_space :: "char \<Rightarrow> bool" where
  "is_space c = (let n = (of_char c :: nat) in (9 \<le> n \<and> n \<le> 13) \<or> (28 \<le> n \<and> n \<le> 32) \<or> n = 133 \<or> n = 160)"

definition strip :: "string \<Rightarrow> string" where
  "strip s = rev (dropWhile is_space (rev (dropWhile is_space s)))"

definition startswith :: "string \<Rightarrow> string \<Rightarrow> bool" where
  "startswith s p = (take (length p) s = p)"

definition endswith :: "string \<Rightarrow> string \<Rightarrow> bool" where
  "endswith s p = (length p \<le> length s \<and> drop (length s - length p) s = p)"

text \<open>\<^verbatim>\<open>not s or s.isspace()\<close>: \<^verbatim>\<open>isspace\<close> is false on the empty string.\<close>

definition is_blank :: "string \<Rightarrow> bool" where
  "is_blank s = (s = [] \<or> list_all is_space s)"

text \<open>Lower case of a letter, for \<^verbatim>\<open>re.IGNORECASE\<close>; the ASCII letters only.\<close>

definition lower :: "char \<Rightarrow> char" where
  "lower c = (let n = (of_char c :: nat) in if 65 \<le> n \<and> n \<le> 90 then char_of (n + 32) else c)"

section \<open>Regular expressions as the \<^verbatim>\<open>re\<close> module matches them\<close>

text \<open>
  The patterns of the source use literal characters, \<^verbatim>\<open>.\<close> under \<^verbatim>\<open>re.DOTALL\<close>,
  \<^verbatim>\<open>\s\<close>, character sets and their complements, greedy and lazy stars, one capturing
  group, a lookahead and the anchors \<^verbatim>\<open>^\<close> and \<^verbatim>\<open>$\<close>.
\<close>

datatype cclass = AnyChar | Ch char | Space | OneOf "char list" | NoneOf "char list"

datatype regex =
    Atom cclass
  | Empty
  | Then regex regex
  | Star regex
  | LazyStar regex
  | Group regex
  | Ahead regex
  | Bol
  | Eol

text \<open>The flag is \<^verbatim>\<open>re.IGNORECASE\<close>.\<close>

fun cclass_ok :: "bool \<Rightarrow> cclass \<Rightarrow> char \<Rightarrow> bool" where
  "cclass_ok ic AnyChar x = True"
| "cclass_ok ic (Ch c) x = (if ic then lower x = lower c else x = c)"
| "cclass_ok ic Space x = is_space x"
| "cclass_ok ic (OneOf cs) x = (if ic then lower x \<in> lower ` set cs else x \<in> set cs)"
| "cclass_ok ic (NoneOf cs) x = (if ic then lower x \<notin> lower ` set cs else x \<notin> set cs)"

text \<open>
  A matching state: the position in the subject, the text from there on, and the text of
  group 1 when it has taken part.
\<close>

record mstate =
  pos :: nat
  rest :: string
  cap :: "string option"

text \<open>
  The matcher backtracks: \<open>rmatch\<close> lists every way the pattern matches at a state, in
  the order in which the backtracking search tries them, so the head of the list is the
  match \<^verbatim>\<open>re\<close> reports. A greedy star tries one more iteration before stopping, a lazy
  star stops before trying one more; an iteration that consumes nothing ends the
  repetition.
\<close>

function star_greedy :: "(mstate \<Rightarrow> mstate list) \<Rightarrow> mstate \<Rightarrow> mstate list" where
  "star_greedy f st =
     concat (map (star_greedy f) (filter (\<lambda>st'. length (rest st') < length (rest st)) (f st))) @ [st]"
  by pat_completeness auto
termination
  by (relation "measure (\<lambda>(f, st). length (rest st))") auto

function star_lazy :: "(mstate \<Rightarrow> mstate list) \<Rightarrow> mstate \<Rightarrow> mstate list" where
  "star_lazy f st =
     st # concat (map (star_lazy f) (filter (\<lambda>st'. length (rest st') < length (rest st)) (f st)))"
  by pat_completeness auto
termination
  by (relation "measure (\<lambda>(f, st). length (rest st))") auto

declare star_greedy.simps [simp del] star_lazy.simps [simp del]

primrec rmatch :: "bool \<Rightarrow> regex \<Rightarrow> mstate \<Rightarrow> mstate list" where
  "rmatch ic (Atom c) = (\<lambda>st.
     (case rest st of
        [] \<Rightarrow> []
      | x # xs \<Rightarrow> if cclass_ok ic c x then [st\<lparr>pos := pos st + 1, rest := xs\<rparr>] else []))"
| "rmatch ic Empty = (\<lambda>st. [st])"
| "rmatch ic (Then r1 r2) = (\<lambda>st. concat (map (rmatch ic r2) (rmatch ic r1 st)))"
| "rmatch ic (Star r) = star_greedy (rmatch ic r)"
| "rmatch ic (LazyStar r) = star_lazy (rmatch ic r)"
| "rmatch ic (Group r) = (\<lambda>st.
     map (\<lambda>st'. st'\<lparr>cap := Some (take (pos st' - pos st) (rest st))\<rparr>) (rmatch ic r st))"
| "rmatch ic (Ahead r) = (\<lambda>st. if rmatch ic r st = [] then [] else [st])"
| "rmatch ic Bol = (\<lambda>st. if pos st = 0 then [st] else [])"
| "rmatch ic Eol = (\<lambda>st. if rest st = [] \<or> rest st = [CHR 0x0A] then [st] else [])"

definition lit :: "string \<Rightarrow> regex" where
  "lit s = foldr (\<lambda>c r. Then (Atom (Ch c)) r) s Empty"

text \<open>The text that the template \<^verbatim>\<open>\1\<close> stands for: empty when the group took no part.\<close>

definition group1 :: "mstate \<Rightarrow> string" where
  "group1 m = (case cap m of None \<Rightarrow> [] | Some s \<Rightarrow> s)"

text \<open>
  \<^verbatim>\<open>re.sub(pattern, r'\1', text)\<close> and \<^verbatim>\<open>re.findall(pattern, text)\<close> for a pattern with
  one group: the subject is scanned from the left, each match found at the earliest
  position, the next search resuming where the match ended. After a match of no
  character the scan moves one character on.
\<close>

function re_sub :: "bool \<Rightarrow> regex \<Rightarrow> nat \<Rightarrow> string \<Rightarrow> string" where
  "re_sub ic r p s =
     (case rmatch ic r \<lparr>pos = p, rest = s, cap = None\<rparr> of
        [] \<Rightarrow> (case s of [] \<Rightarrow> [] | x # xs \<Rightarrow> x # re_sub ic r (p + 1) xs)
      | m # _ \<Rightarrow>
          (if pos m - p = 0 \<or> length s < pos m - p
           then group1 m @ (case s of [] \<Rightarrow> [] | x # xs \<Rightarrow> x # re_sub ic r (p + 1) xs)
           else group1 m @ re_sub ic r (p + (pos m - p)) (drop (pos m - p) s)))"
  by pat_completeness auto
termination
  by (relation "measure (\<lambda>(ic, r, p, s). length s)") auto

function re_findall :: "bool \<Rightarrow> regex \<Rightarrow> nat \<Rightarrow> string \<Rightarrow> string list" where
  "re_findall ic r p s =
     (case rmatch ic r \<lparr>pos = p, rest = s, cap = None\<rparr> of
        [] \<Rightarrow> (case s of [] \<Rightarrow> [] | x # xs \<Rightarrow> re_findall ic r (p + 1) xs)
      | m # _ \<Rightarrow>
          (if pos m - p = 0 \<or> length s < pos m - p
           then group1 m # (case s of [] \<Rightarrow> [] | x # xs \<Rightarrow> re_findall ic r (p + 1) xs)
           else group1 m # re_findall ic r (p + (pos m - p)) (drop (pos m - p) s)))"
  by pat_completeness auto
termination
  by (relation "measure (\<lambda>(ic, r, p, s). length s)") auto

declare re_sub.simps [simp del] re_findall.simps [simp del]

definition seq :: "regex list \<Rightarrow> regex" where
  "seq rs = foldr Then rs Empty"

section \<open>Extraction of the JSON payload\<close>

text \<open>
  The four patterns of \<^verbatim>\<open>extract_data\<close>, each compiled with
  \<^verbatim>\<open>re.DOTALL | re.IGNORECASE\<close>. The data type is spliced into the pattern text; it is
  modelled for data types made of letters and digits (the agent passes \<^verbatim>\<open>json\<close>), which
  the pattern matches as literal characters.
\<close>

definition labelled_block :: "string \<Rightarrow> regex" where
  "labelled_block data_type =
     seq [lit ''```'', lit data_type, Star (Atom Space), Group (LazyStar (Atom AnyChar)),
          Star (Atom Space), lit ''```'']"

definition unlabelled_block :: regex where
  "unlabelled_block =
     seq [lit ''```'', Star (Atom Space),
          Group (seq [Atom (Ch CHR ''{''), LazyStar (Atom AnyChar), Atom (Ch CHR ''}'')]),
          Star (Atom Space), lit ''```'']"

definition open_block :: "string \<Rightarrow> regex" where
  "open_block data_type =
     seq [lit ''```'', lit data_type, Star (Atom Space), Group (LazyStar (Atom AnyChar)), Eol]"

definition bare_object :: regex where
  "bare_object =
     Group (seq [Atom (Ch CHR ''{''), Star (Atom (NoneOf ''{}'')),
                 Star (seq [Atom (Ch CHR ''{''), Star (Atom (NoneOf ''{}'')), Atom (Ch CHR ''}''),
                            Star (Atom (NoneOf ''{}''))]),
                 Atom (Ch CHR ''}'')])"

text \<open>
  The scan for the brace that closes the first \<^verbatim>\<open>{\<close>: the number of characters up to
  and including it, when the counter comes back to 0.
\<close>

fun brace_scan :: "int \<Rightarrow> string \<Rightarrow> nat option" where
  "brace_scan brace_count [] = None"
| "brace_scan brace_count (c # cs) =
     (if c = CHR ''{'' then map_option Suc (brace_scan (brace_count + 1) cs)
      else if c = CHR ''}'' then
        (if brace_count - 1 = 0 then Some 1
         else map_option Suc (brace_scan (brace_count - 1) cs))
      else map_option Suc (brace_scan brace_count cs))"

datatype extraction_method =
    MethodNone | StandardBlock | UnlabelledBlock | OpenMarkerOnly | DirectJson
  | CompleteObjectScan | ReturnOriginal

text \<open>
  \<^verbatim>\<open>extract_data_debug\<close> of \<^verbatim>\<open>debug_json_parsing.py\<close>: the extracted text with the
  \<^verbatim>\<open>extraction_method\<close> entry of its debug record. \<^verbatim>\<open>extract_data\<close> of
  \<^verbatim>\<open>vlm_agent.py\<close> runs the same steps and returns the text alone.
\<close>

definition extract_data_debug :: "string \<Rightarrow> string \<Rightarrow> string \<times> extraction_method" where
  "extract_data_debug input_string data_type =
     (if input_string = [] then ([], MethodNone)
      else case re_findall True (labelled_block data_type) 0 input_string of
        c # _ \<Rightarrow> (strip c, StandardBlock)
      | [] \<Rightarrow>
     (case re_findall True unlabelled_block 0 input_string of
        c # _ \<Rightarrow> (strip c, UnlabelledBlock)
      | [] \<Rightarrow>
     (case re_findall True (open_block data_type) 0 input_string of
        c # _ \<Rightarrow> (strip c, OpenMarkerOnly)
      | [] \<Rightarrow>
     (case re_findall True bare_object 0 input_string of
        c # _ \<Rightarrow> (strip c, DirectJson)
      | [] \<Rightarrow>
     (case brace_scan 0 (dropWhile (\<lambda>c. c \<noteq> CHR ''{'') input_string) of
        Some n \<Rightarrow> (strip (take n (dropWhile (\<lambda>c. c \<noteq> CHR ''{'') input_string)), CompleteObjectScan)
      | None \<Rightarrow> (strip input_string, ReturnOriginal))))))"

definition extract_data :: "string \<Rightarrow> string \<Rightarrow> string" where
  "extract_data input_string data_type = fst (extract_data_debug input_string data_type)"

section \<open>Repair and parsing of the candidate\<close>

text \<open>
  What \<^verbatim>\<open>json.loads\<close> returns: \<^verbatim>\<open>None\<close>, a \<^verbatim>\<open>bool\<close>, an \<^verbatim>\<open>int\<close>, a \<^verbatim>\<open>float\<close> (held
  as the rational it denotes), a \<^verbatim>\<open>str\<close>, a \<^verbatim>\<open>list\<close> or a \<^verbatim>\<open>dict\<close>. A \<^verbatim>\<open>dict\<close> is
  the list of its items in insertion order, its keys distinct.
\<close>

datatype json =
    JNull
  | JBool bool
  | JInt int
  | JReal rat
  | JStr string
  | JArr "json list"
  | JObj "(string \<times> json) list"

type_synonym pydict = "(string \<times> json) list"

datatype py_error =
    KeyError string
  | IndexError
  | TypeError
  | ValueError
  | AttributeError
  | JSONDecodeError
  | ConnectionError

definition dict_contains :: "string \<Rightarrow> pydict \<Rightarrow> bool" where
  "dict_contains k d = (map_of d k \<noteq> None)"

definition dict_getitem :: "pydict \<Rightarrow> string \<Rightarrow> py_error + json" where
  "dict_getitem d k = (case map_of d k of None \<Rightarrow> Inl (KeyError k) | Some v \<Rightarrow> Inr v)"

fun dict_setitem :: "string \<Rightarrow> json \<Rightarrow> pydict \<Rightarrow> pydict" where
  "dict_setitem k v [] = [(k, v)]"
| "dict_setitem k v ((k', v') # d) =
     (if k' = k then (k, v) # d else (k', v') # dict_setitem k v d)"

text \<open>The three substitutions of the repair, each with the template \<^verbatim>\<open>\1\<close>.\<close>

definition comma_before_closer :: regex where
  "comma_before_closer =
     seq [Atom (Ch CHR '',''), Group (seq [Star (Atom Space), Atom (OneOf ''}]'')])]"

definition comma_before_brace :: regex where
  "comma_before_brace =
     seq [Atom (Ch CHR '',''), Group (Star (Atom Space)), Ahead (Atom (Ch CHR ''}''))]"

definition brace_span :: regex where
  "brace_span =
     seq [Bol, Star (Atom (NoneOf ''{'')),
          Group (seq [Atom (Ch CHR ''{''), Star (Atom AnyChar), Atom (Ch CHR ''}'')]),
          Star (Atom (NoneOf ''}'')), Eol]"

text \<open>
  The clean-up before the first parse: trim, drop a leading \<^verbatim>\<open>```json\<close>, a leading
  \<^verbatim>\<open>```\<close> and a trailing \<^verbatim>\<open>```\<close>, trim, remove the commas that stand before a
  closing brace or bracket.
\<close>

definition clean_candidate :: "string \<Rightarrow> string" where
  "clean_candidate candidate =
     (let s1 = strip candidate;
          s2 = (if startswith s1 ''```json'' then drop 7 s1 else s1);
          s3 = (if startswith s2 ''```'' then drop 3 s2 else s2);
          s4 = (if endswith s3 ''```'' then take (length s3 - 3) s3 else s3);
          s5 = strip s4
      in re_sub False comma_before_closer 0 s5)"

text \<open>The second repair, tried when the first parse fails.\<close>

definition second_repair :: "string \<Rightarrow> string" where
  "second_repair s = re_sub False brace_span 0 (re_sub False comma_before_brace 0 s)"

definition error_reason :: "string \<Rightarrow> string" where
  "error_reason s =
     (if length s = 0 then ''Empty response''
      else if \<not> startswith (strip s) ''{'' then ''Response doesn't start with '{'' @ [CHR 0x27]
      else if \<not> endswith (strip s) ''}'' then ''Response doesn't end with '}'' @ [CHR 0x27]
      else ''Invalid JSON syntax'')"

definition empty_directive :: json where
  "empty_directive =
     JObj [(''Reasoning'', JStr ''Empty response received, taking screenshot to assess current state''),
           (''Next Action'', JStr ''screenshot'')]"

definition failure_directive :: "string \<Rightarrow> json" where
  "failure_directive reason =
     JObj [(''Reasoning'',
              JStr (''JSON parsing failed ('' @ reason @ ''), taking screenshot to assess current state'')),
           (''Next Action'', JStr ''screenshot'')]"

text \<open>
  The parser \<^verbatim>\<open>json.loads\<close> is a parameter: \<open>loads s = None\<close> when it raises
  \<^verbatim>\<open>JSONDecodeError\<close> on \<open>s\<close>, the only exception the two \<^verbatim>\<open>try\<close> blocks catch.
\<close>

definition repair_and_parse :: "(string \<Rightarrow> json option) \<Rightarrow> string \<Rightarrow> json" where
  "repair_and_parse loads candidate =
     (let s = clean_candidate candidate in
      if is_blank s then empty_directive
      else (case loads s of
              Some v \<Rightarrow> v
            | None \<Rightarrow>
                (case loads (second_repair s) of
                   Some v \<Rightarrow> v
                 | None \<Rightarrow> failure_directive (error_reason s))))"

section \<open>Decoding of the directive\<close>

text \<open>
  The record handed over by the screen analysis, reduced to the fields that the decoding
  reads. An element is a dictionary; \<open>bbox\<close> is \<open>None\<close> when it has no \<^verbatim>\<open>bbox\<close> key.
  Coordinates are Python floats, held as rationals: the arithmetic of the model is exact.
\<close>

record screen_element =
  bbox :: "rat list option"

record parsed_screen =
  som_image_base64 :: string
  width :: int
  height :: int
  parsed_content_list :: "screen_element list"

text \<open>\<^verbatim>\<open>xs[i]\<close> on a Python list: an index from \<open>- len\<close> up to \<open>len - 1\<close>.\<close>

definition list_getitem :: "'a list \<Rightarrow> int \<Rightarrow> py_error + 'a" where
  "list_getitem xs i =
     (let n = int (length xs) in
      if 0 \<le> i \<and> i < n then Inr (xs ! nat i)
      else if - n \<le> i \<and> i < 0 then Inr (xs ! nat (n + i))
      else Inl IndexError)"

text \<open>\<^verbatim>\<open>int(x)\<close> on a float: towards zero.\<close>

definition py_trunc :: "rat \<Rightarrow> int" where
  "py_trunc q = (if 0 \<le> q then \<lfloor>q\<rfloor> else \<lceil>q\<rceil>)"

text \<open>
  \<^verbatim>\<open>int(s)\<close> on an ASCII string: blanks around (code points 9 to 13 and 32), a sign,
  then decimal digits, single underscores allowed between digits.
\<close>

definition is_digit :: "char \<Rightarrow> bool" where
  "is_digit c = (let n = (of_char c :: nat) in 48 \<le> n \<and> n \<le> 57)"

definition int_blank :: "char \<Rightarrow> bool" where
  "int_blank c = (let n = (of_char c :: nat) in (9 \<le> n \<and> n \<le> 13) \<or> n = 32)"

fun digits_ok :: "bool \<Rightarrow> string \<Rightarrow> bool" where
  "digits_ok after_digit [] = after_digit"
| "digits_ok after_digit (c # cs) =
     (if is_digit c then digits_ok True cs
      else if c = CHR ''_'' then after_digit \<and> cs \<noteq> [] \<and> is_digit (hd cs) \<and> digits_ok False cs
      else False)"

definition digits_value :: "string \<Rightarrow> int" where
  "digits_value s = foldl (\<lambda>n c. 10 * n + (int (of_char c) - 48)) 0 (filter is_digit s)"

definition int_of_str :: "string \<Rightarrow> int option" where
  "int_of_str s =
     (let t = rev (dropWhile int_blank (rev (dropWhile int_blank s)));
          neg = (t \<noteq> [] \<and> hd t = CHR ''-'');
          d = (if t \<noteq> [] \<and> (hd t = CHR ''-'' \<or> hd t = CHR ''+'') then tl t else t)
      in if digits_ok False d then Some (if neg then - digits_value d else digits_value d)
         else None)"

fun py_int :: "json \<Rightarrow> py_error + int" where
  "py_int (JInt n) = Inr n"
| "py_int (JBool b) = Inr (if b then 1 else 0)"
| "py_int (JReal q) = Inr (py_trunc q)"
| "py_int (JStr s) = (case int_of_str s of None \<Rightarrow> Inl ValueError | Some n \<Rightarrow> Inr n)"
| "py_int JNull = Inl TypeError"
| "py_int (JArr _) = Inl TypeError"
| "py_int (JObj _) = Inl TypeError"

text \<open>
  The first two statements of the \<^verbatim>\<open>try\<close> block: the bounding box of the element named
  by \<^verbatim>\<open>Box ID\<close> and the centre of the box in pixels. Every exception raised here is
  caught by the bare \<^verbatim>\<open>except\<close>.
\<close>

definition box_centroid :: "parsed_screen \<Rightarrow> pydict \<Rightarrow> py_error + int \<times> int" where
  "box_centroid ps d =
     (case dict_getitem d ''Box ID'' of Inl e \<Rightarrow> Inl e | Inr v \<Rightarrow>
      case py_int v of Inl e \<Rightarrow> Inl e | Inr i \<Rightarrow>
      case list_getitem (parsed_content_list ps) i of Inl e \<Rightarrow> Inl e | Inr el \<Rightarrow>
      case bbox el of None \<Rightarrow> Inl (KeyError ''bbox'') | Some b \<Rightarrow>
      case list_getitem b 0 of Inl e \<Rightarrow> Inl e | Inr b0 \<Rightarrow>
      case list_getitem b 2 of Inl e \<Rightarrow> Inl e | Inr b2 \<Rightarrow>
      case list_getitem b 1 of Inl e \<Rightarrow> Inl e | Inr b1 \<Rightarrow>
      case list_getitem b 3 of Inl e \<Rightarrow> Inl e | Inr b3 \<Rightarrow>
        Inr (py_trunc ((b0 + b2) / 2 * of_int (width ps)),
             py_trunc ((b1 + b3) / 2 * of_int (height ps))))"

text \<open>
  The whole \<^verbatim>\<open>Box ID\<close> stage: the directive as it is afterwards and the image that is
  shown. Drawing the marker on the image is the work of the imaging library; \<open>draw\<close>
  gives the marked image, or \<open>None\<close> when that code raises, which the same bare
  \<^verbatim>\<open>except\<close> catches after the coordinate has been stored.
\<close>

definition resolve_box ::
    "(string \<Rightarrow> int \<Rightarrow> int \<Rightarrow> string option) \<Rightarrow> parsed_screen \<Rightarrow> pydict \<Rightarrow> pydict \<times> string" where
  "resolve_box draw ps d =
     (if dict_contains ''Box ID'' d then
        (case box_centroid ps d of
           Inl e \<Rightarrow> (d, som_image_base64 ps)
         | Inr (x, y) \<Rightarrow>
             (dict_setitem ''box_centroid_coordinate'' (JArr [JInt x, JInt y]) d,
              (case draw (som_image_base64 ps) x y of
                 None \<Rightarrow> som_image_base64 ps
               | Some img \<Rightarrow> img)))
      else (d, som_image_base64 ps))"

text \<open>
  The content of the response message: a text block and tool-use blocks, each with its
  \<^verbatim>\<open>input\<close> dictionary. \<open>py_str\<close> is Python's formatting of a value in an f-string.
\<close>

datatype block = TextBlock string | ToolUseBlock pydict

definition plan_str :: "(json \<Rightarrow> string) \<Rightarrow> pydict \<Rightarrow> string" where
  "plan_str py_str d =
     concat (map (\<lambda>(key, v). if key = ''Reasoning'' then py_str v
                              else [CHR 0x0A] @ key @ '': '' @ py_str v) d)"

definition dispatch :: "pydict \<Rightarrow> block list \<Rightarrow> py_error + block list" where
  "dispatch d blocks =
     (case dict_getitem d ''Next Action'' of
        Inl e \<Rightarrow> Inl e
      | Inr a \<Rightarrow>
          if a = JStr ''None'' then Inr blocks
          else if a = JStr ''type'' then
            (case dict_getitem d ''value'' of
               Inl e \<Rightarrow> Inl e
             | Inr v \<Rightarrow> Inr (blocks @ [ToolUseBlock [(''action'', a), (''text'', v)]]))
          else Inr (blocks @ [ToolUseBlock [(''action'', a)]]))"

record step_result =
  response_content :: "block list"
  directive :: json
  image_shown :: string

text \<open>
  The blocks that precede the action: the plan as text and, when the directive holds a
  \<^verbatim>\<open>box_centroid_coordinate\<close>, the move of the cursor to it.
\<close>

definition leading_blocks :: "(json \<Rightarrow> string) \<Rightarrow> pydict \<Rightarrow> block list" where
  "leading_blocks py_str d =
     TextBlock (plan_str py_str d) #
     (case map_of d ''box_centroid_coordinate'' of
        None \<Rightarrow> []
      | Some c \<Rightarrow> [ToolUseBlock [(''action'', JStr ''mouse_move''), (''coordinate'', c)]])"

definition respond :: "(json \<Rightarrow> string) \<Rightarrow> pydict \<Rightarrow> string \<Rightarrow> py_error + step_result" where
  "respond py_str d img =
     (case dispatch d (leading_blocks py_str d) of
        Inl e \<Rightarrow> Inl e
      | Inr bs \<Rightarrow> Inr \<lparr>response_content = bs, directive = JObj d, image_shown = img\<rparr>)"

text \<open>
  The part of \<^verbatim>\<open>VLMAgent.__call__\<close> after the parse, on the parsed value. On a value
  that is no dictionary the membership test raises \<^verbatim>\<open>TypeError\<close> (a number, a boolean,
  \<^verbatim>\<open>None\<close>) or the later \<^verbatim>\<open>.items()\<close> raises \<^verbatim>\<open>AttributeError\<close> (a string, a list).
\<close>

definition decode_step ::
    "(string \<Rightarrow> int \<Rightarrow> int \<Rightarrow> string option) \<Rightarrow> (json \<Rightarrow> string) \<Rightarrow> parsed_screen \<Rightarrow> json
      \<Rightarrow> py_error + step_result" where
  "decode_step draw py_str ps v =
     (case v of
        JObj d \<Rightarrow> (case resolve_box draw ps d of (d', img) \<Rightarrow> respond py_str d' img)
      | JStr _ \<Rightarrow> Inl AttributeError
      | JArr _ \<Rightarrow> Inl AttributeError
      | _ \<Rightarrow> Inl TypeError)"

text \<open>The agent step from the model's raw response to the response message.\<close>

definition agent_step ::
    "(string \<Rightarrow> json option) \<Rightarrow> (string \<Rightarrow> int \<Rightarrow> int \<Rightarrow> string option) \<Rightarrow> (json \<Rightarrow> string)
      \<Rightarrow> parsed_screen \<Rightarrow> string \<Rightarrow> py_error + step_result" where
  "agent_step loads draw py_str ps vlm_response =
     decode_step draw py_str ps (repair_and_parse loads (extract_data vlm_response ''json''))"

text \<open>
  The actions that the system prompt offers to the model, with the \<^verbatim>\<open>None\<close> that ends
  the task.
\<close>

definition recognized_actions :: "string list" where
  "recognized_actions =
     [''None'', ''type'', ''left_click'', ''right_click'', ''double_click'', ''hover'',
      ''scroll_up'', ''scroll_down'', ''wait'']"

section \<open>A model of \<^verbatim>\<open>json.loads\<close>\<close>

text \<open>
  The standard library's parser on the JSON grammar: blanks (space, tab, line feed,
  carriage return), objects, arrays, strings with their escapes, numbers and the three
  literals. A number with a fraction or an exponent is the rational it denotes. Outside
  the model, and parsed as a failure here: the literals \<^verbatim>\<open>NaN\<close> and \<^verbatim>\<open>Infinity\<close>, and
  \<^verbatim>\<open>\u\<close> escapes of code points from 256 on.
\<close>

definition json_blank :: "char \<Rightarrow> bool" where
  "json_blank c = (c = CHR '' '' \<or> c = CHR 0x09 \<or> c = CHR 0x0A \<or> c = CHR 0x0D)"

definition skip_blanks :: "string \<Rightarrow> string" where
  "skip_blanks s = dropWhile json_blank s"

definition hex_value :: "char \<Rightarrow> nat option" where
  "hex_value c =
     (let n = (of_char c :: nat) in
      if 48 \<le> n \<and> n \<le> 57 then Some (n - 48)
      else if 65 \<le> n \<and> n \<le> 70 then Some (n - 55)
      else if 97 \<le> n \<and> n \<le> 102 then Some (n - 87)
      else None)"

definition simple_escape :: "char \<Rightarrow> char option" where
  "simple_escape e =
     (if e = CHR 0x22 then Some (CHR 0x22)
      else if e = CHR 0x5C then Some (CHR 0x5C)
      else if e = CHR ''/'' then Some (CHR ''/'')
      else if e = CHR ''b'' then Some (CHR 0x08)
      else if e = CHR ''f'' then Some (CHR 0x0C)
      else if e = CHR ''n'' then Some (CHR 0x0A)
      else if e = CHR ''r'' then Some (CHR 0x0D)
      else if e = CHR ''t'' then Some (CHR 0x09)
      else None)"

text \<open>The text of a string literal after its opening quote, with what follows it.\<close>

fun scan_string :: "string \<Rightarrow> (string \<times> string) option" where
  "scan_string [] = None"
| "scan_string (c # cs) =
     (if c = CHR 0x22 then Some ([], cs)
      else if c = CHR 0x5C then
        (case cs of
           [] \<Rightarrow> None
         | e # cs' \<Rightarrow>
             if e = CHR ''u'' then
               (case cs' of
                  h1 # h2 # h3 # h4 # cs'' \<Rightarrow>
                    (case (hex_value h1, hex_value h2, hex_value h3, hex_value h4) of
                       (Some a, Some b, Some c', Some d) \<Rightarrow>
                         if a = 0 \<and> b = 0 then
                           map_option (\<lambda>(t, r). (char_of (16 * c' + d) # t, r)) (scan_string cs'')
                         else None
                     | _ \<Rightarrow> None)
                | _ \<Rightarrow> None)
             else
               (case simple_escape e of
                  None \<Rightarrow> None
                | Some x \<Rightarrow> map_option (\<lambda>(t, r). (x # t, r)) (scan_string cs')))
      else if (of_char c :: nat) < 32 then None
      else map_option (\<lambda>(t, r). (c # t, r)) (scan_string cs))"

definition digits_nat :: "string \<Rightarrow> nat" where
  "digits_nat ds = foldl (\<lambda>n c. 10 * n + (of_char c - 48)) 0 ds"

text \<open>A number: \<^verbatim>\<open>-?(0|[1-9]\d*)(\.\d+)?([eE][-+]?\d+)?\<close>, the longest such prefix.\<close>

definition scan_number :: "string \<Rightarrow> (json \<times> string) option" where
  "scan_number s =
     (let neg = (s \<noteq> [] \<and> hd s = CHR ''-'');
          s1 = (if neg then tl s else s);
          ip = takeWhile is_digit s1;
          s2 = dropWhile is_digit s1
      in if ip = [] then None
         else
           (let ip' = (if hd ip = CHR ''0'' then ''0'' else ip);
                s2' = (if hd ip = CHR ''0'' then tl s1 else s2);
                fp = (if s2' \<noteq> [] \<and> hd s2' = CHR ''.'' then takeWhile is_digit (tl s2') else []);
                s3 = (if fp = [] then s2' else dropWhile is_digit (tl s2'));
                has_e = (s3 \<noteq> [] \<and> (hd s3 = CHR ''e'' \<or> hd s3 = CHR ''E''));
                s4 = (if has_e then tl s3 else s3);
                eneg = (s4 \<noteq> [] \<and> hd s4 = CHR ''-'');
                s5 = (if has_e \<and> s4 \<noteq> [] \<and> (hd s4 = CHR ''-'' \<or> hd s4 = CHR ''+'') then tl s4 else s4);
                ep = (if has_e then takeWhile is_digit s5 else []);
                s6 = (if ep = [] then s3 else dropWhile is_digit s5);
                sgn = (if neg then - 1 else 1)
            in if fp = [] \<and> ep = [] then Some (JInt (sgn * int (digits_nat ip')), s6)
               else
                 Some (JReal (of_int sgn
                         * (of_nat (digits_nat ip') + of_nat (digits_nat fp) / 10 ^ length fp)
                         * (if eneg then 1 / 10 ^ digits_nat ep else 10 ^ digits_nat ep)),
                       s6)))"

text \<open>
  The recursive descent. The three mutually recursive routines of the parser (a value,
  the members of an object after its first blank, the elements of an array) are the three
  tasks of one function; \<open>n\<close> bounds the depth of the calls, and a text of \<open>k\<close>
  characters needs at most \<open>k + 1\<close>.
\<close>

datatype parse_task = PValue | PMembers pydict | PElements "json list"

primrec parse_json :: "nat \<Rightarrow> parse_task \<Rightarrow> string \<Rightarrow> (json \<times> string) option" where
  "parse_json 0 = (\<lambda>task s. None)"
| "parse_json (Suc n) = (\<lambda>task s.
     (case task of
        PValue \<Rightarrow>
          (case s of
             [] \<Rightarrow> None
           | c # cs \<Rightarrow>
               if c = CHR 0x22 then map_option (\<lambda>(t, r). (JStr t, r)) (scan_string cs)
               else if c = CHR ''{'' then
                 (case skip_blanks cs of
                    [] \<Rightarrow> None
                  | c' # cs' \<Rightarrow>
                      if c' = CHR ''}'' then Some (JObj [], cs')
                      else parse_json n (PMembers []) (c' # cs'))
               else if c = CHR ''['' then
                 (case skip_blanks cs of
                    [] \<Rightarrow> None
                  | c' # cs' \<Rightarrow>
                      if c' = CHR '']'' then Some (JArr [], cs')
                      else parse_json n (PElements []) (c' # cs'))
               else if startswith s ''null'' then Some (JNull, drop 4 s)
               else if startswith s ''true'' then Some (JBool True, drop 4 s)
               else if startswith s ''false'' then Some (JBool False, drop 5 s)
               else scan_number s)
      | PMembers d \<Rightarrow>
          (case s of
             [] \<Rightarrow> None
           | c # cs \<Rightarrow>
               if c \<noteq> CHR 0x22 then None
               else
                 (case scan_string cs of
                    None \<Rightarrow> None
                  | Some (key, r) \<Rightarrow>
                      (case skip_blanks r of
                         [] \<Rightarrow> None
                       | c1 # r1 \<Rightarrow>
                           if c1 \<noteq> CHR '':'' then None
                           else
                             (case parse_json n PValue (skip_blanks r1) of
                                None \<Rightarrow> None
                              | Some (v, r2) \<Rightarrow>
                                  (case skip_blanks r2 of
                                     [] \<Rightarrow> None
                                   | c2 # r3 \<Rightarrow>
                                       if c2 = CHR ''}'' then Some (JObj (dict_setitem key v d), r3)
                                       else if c2 = CHR '','' then
                                         parse_json n (PMembers (dict_setitem key v d)) (skip_blanks r3)
                                       else None)))))
      | PElements xs \<Rightarrow>
          (case parse_json n PValue s of
             None \<Rightarrow> None
           | Some (v, r) \<Rightarrow>
               (case skip_blanks r of
                  [] \<Rightarrow> None
                | c # r1 \<Rightarrow>
                    if c = CHR '']'' then Some (JArr (xs @ [v]), r1)
                    else if c = CHR '','' then parse_json n (PElements (xs @ [v])) (skip_blanks r1)
                    else None))))"

definition json_loads :: "string \<Rightarrow> json option" where
  "json_loads s =
     (case parse_json (Suc (length s)) PValue (skip_blanks s) of
        None \<Rightarrow> None
      | Some (v, r) \<Rightarrow> if skip_blanks r = [] then Some v else None)"

text \<open>A history used to exercise the trimming: three messages, four images.\<close>

definition example_is_image_path :: "string \<Rightarrow> bool" where
  "example_is_image_path s = (s = ''a.png'' \<or> s = ''b.png'' \<or> s = ''c.png'')"

definition example_history :: "message list" where
  "example_history =
     [\<lparr>role = ''user'', content = ContentList [StrItem ''task'', StrItem ''a.png'']\<rparr>,
      \<lparr>role = ''user'', content = ContentList
         [ToolResult [OtherEntry ''text'', ImageEntry ''shot''], StrItem ''b.png'', OtherItem ''block'']\<rparr>,
      \<lparr>role = ''user'', content = ContentList [StrItem ''c.png'']\<rparr>]"

text \<open>Collaborators and a screen used to exercise the decoding.\<close>

definition no_draw :: "string \<Rightarrow> int \<Rightarrow> int \<Rightarrow> string option" where
  "no_draw img x y = None"

definition mark_draw :: "string \<Rightarrow> int \<Rightarrow> int \<Rightarrow> string option" where
  "mark_draw img x y = Some (img @ ''+marker'')"

definition plain_str :: "json \<Rightarrow> string" where
  "plain_str v = (case v of JStr s \<Rightarrow> s | _ \<Rightarrow> ''?'')"

definition example_screen :: parsed_screen where
  "example_screen =
     \<lparr>som_image_base64 = ''som'', width = 1000, height = 500,
      parsed_content_list = [\<lparr>bbox = Some [1 / 10, 2 / 10, 3 / 10, 4 / 10]\<rparr>]\<rparr>"

section \<open>Properties of the image-retention policy\<close>

lemma trim_entries_remove:
  "entry_is_image e \<Longrightarrow> r > 0 \<Longrightarrow> trim_entries r (e # es) = trim_entries (r - 1) es"
  by simp

lemma trim_entries_keep:
  "\<not> (entry_is_image e \<and> r > 0) \<Longrightarrow>
     trim_entries r (e # es) = (fst (trim_entries r es), e # snd (trim_entries r es))"
  by (auto simp: case_prod_unfold)

lemma trim_items_remove:
  "P s \<Longrightarrow> r > 0 \<Longrightarrow> trim_items P r (StrItem s # cs) = trim_items P (r - 1) cs"
  by simp

lemma trim_items_keep:
  "\<not> (P s \<and> r > 0) \<Longrightarrow>
     trim_items P r (StrItem s # cs) = (fst (trim_items P r cs), StrItem s # snd (trim_items P r cs))"
  by (auto simp: case_prod_unfold)

lemma trim_items_tool:
  "trim_items P r (ToolResult es # cs) =
     (fst (trim_items P (fst (trim_entries r es)) cs),
      ToolResult (snd (trim_entries r es)) # snd (trim_items P (fst (trim_entries r es)) cs))"
  by (simp add: case_prod_unfold)

lemma trim_items_other:
  "trim_items P r (OtherItem x # cs) = (fst (trim_items P r cs), OtherItem x # snd (trim_items P r cs))"
  by (simp add: case_prod_unfold)

lemma trim_entries_counter:
  "fst (trim_entries r es) = r - int (min (nat r) (length (filter entry_is_image es)))"
proof (induction es arbitrary: r)
  case Nil
  show ?case by simp
next
  case (Cons e es)
  consider (rm) "entry_is_image e" "r > 0" | (z) "entry_is_image e" "r \<le> 0" | (no) "\<not> entry_is_image e"
    by fastforce
  then show ?case
  proof cases
    case rm
    then have "nat r = Suc (nat (r - 1))" by arith
    then show ?thesis using rm Cons[of "r - 1"] by (simp only: trim_entries_remove) simp
  next
    case z
    then have "nat r = 0" by simp
    then show ?thesis using z Cons[of r] by (simp add: trim_entries_keep del: trim_entries.simps)
  next
    case no
    then show ?thesis using Cons[of r] by (simp add: trim_entries_keep del: trim_entries.simps)
  qed
qed

lemma trim_entries_images:
  "filter entry_is_image (snd (trim_entries r es)) = drop (nat r) (filter entry_is_image es)"
proof (induction es arbitrary: r)
  case Nil
  show ?case by simp
next
  case (Cons e es)
  consider (rm) "entry_is_image e" "r > 0" | (z) "entry_is_image e" "r \<le> 0" | (no) "\<not> entry_is_image e"
    by fastforce
  then show ?case
  proof cases
    case rm
    then have "nat r = Suc (nat (r - 1))" by arith
    then show ?thesis using rm Cons[of "r - 1"] by (simp only: trim_entries_remove) simp
  next
    case z
    then have "nat r = 0" by simp
    then show ?thesis using z Cons[of r] by (simp add: trim_entries_keep del: trim_entries.simps)
  next
    case no
    then show ?thesis using Cons[of r] by (simp add: trim_entries_keep del: trim_entries.simps)
  qed
qed

lemma trim_entries_others:
  "filter (\<lambda>e. \<not> entry_is_image e) (snd (trim_entries r es)) = filter (\<lambda>e. \<not> entry_is_image e) es"
proof (induction es arbitrary: r)
  case Nil
  show ?case by simp
next
  case (Cons e es)
  show ?case
  proof (cases "entry_is_image e \<and> r > 0")
    case True
    then show ?thesis using Cons[of "r - 1"] by (simp only: trim_entries_remove) simp
  next
    case False
    then show ?thesis using Cons[of r] by (simp add: trim_entries_keep del: trim_entries.simps)
  qed
qed

lemma trim_entries_subseq: "subseq (snd (trim_entries r es)) es"
proof (induction es arbitrary: r)
  case Nil
  show ?case by simp
next
  case (Cons e es)
  show ?case
  proof (cases "entry_is_image e \<and> r > 0")
    case True
    then show ?thesis using Cons[of "r - 1"]
      by (simp only: trim_entries_remove) (simp add: list_emb_Cons)
  next
    case False
    then show ?thesis using Cons[of r] by (simp add: trim_entries_keep del: trim_entries.simps)
  qed
qed


lemma filter_map_LEntry:
  "filter (leaf_is_image P) (map LEntry es) = map LEntry (filter entry_is_image es)"
  by (induction es) auto

lemma filter_not_map_LEntry:
  "filter (\<lambda>l. \<not> leaf_is_image P l) (map LEntry es) = map LEntry (filter (\<lambda>e. \<not> entry_is_image e) es)"
  by (induction es) auto

lemma count_item_leaves:
  "length (filter (leaf_is_image P) (item_leaves c)) = count_item P c"
  by (cases c) (auto simp: filter_map_LEntry)

lemma count_items_leaves:
  "length (filter (leaf_is_image P) (concat (map item_leaves cs))) = sum_list (map (count_item P) cs)"
  by (induction cs) (auto simp: count_item_leaves)

lemma trim_items_counter:
  "fst (trim_items P r cs) = r - int (min (nat r) (sum_list (map (count_item P) cs)))"
proof (induction cs arbitrary: r)
  case Nil
  show ?case by simp
next
  case (Cons c cs)
  show ?case
  proof (cases c)
    case (StrItem s)
    consider (rm) "P s" "r > 0" | (z) "P s" "r \<le> 0" | (no) "\<not> P s"
      by fastforce
    then show ?thesis
    proof cases
      case rm
      then have "nat r = Suc (nat (r - 1))" by arith
      then show ?thesis using rm Cons[of "r - 1"] unfolding StrItem
        by (simp only: trim_items_remove) simp
    next
      case z
      then have "nat r = 0" by simp
      then show ?thesis using z Cons[of r] unfolding StrItem
        by (simp add: trim_items_keep del: trim_items.simps)
    next
      case no
      then show ?thesis using Cons[of r] unfolding StrItem
        by (simp add: trim_items_keep del: trim_items.simps)
    qed
  next
    case (ToolResult es)
    let ?n = "length (filter entry_is_image es)"
    let ?m = "sum_list (map (count_item P) cs)"
    have c: "fst (trim_entries r es) = r - int (min (nat r) ?n)"
      by (rule trim_entries_counter)
    have "fst (trim_items P r (c # cs)) = fst (trim_items P (r - int (min (nat r) ?n)) cs)"
      unfolding ToolResult trim_items_tool c by simp
    also have "\<dots> = (r - int (min (nat r) ?n)) - int (min (nat (r - int (min (nat r) ?n))) ?m)"
      by (rule Cons)
    also have "\<dots> = r - int (min (nat r) (?n + ?m))" by arith
    finally show ?thesis unfolding ToolResult by simp
  next
    case (OtherItem x)
    show ?thesis using Cons[of r] unfolding OtherItem
      by (simp add: trim_items_other del: trim_items.simps)
  qed
qed

lemma trim_items_images:
  "filter (leaf_is_image P) (concat (map item_leaves (snd (trim_items P r cs))))
     = drop (nat r) (filter (leaf_is_image P) (concat (map item_leaves cs)))"
proof (induction cs arbitrary: r)
  case Nil
  show ?case by simp
next
  case (Cons c cs)
  show ?case
  proof (cases c)
    case (StrItem s)
    consider (rm) "P s" "r > 0" | (z) "P s" "r \<le> 0" | (no) "\<not> P s"
      by fastforce
    then show ?thesis
    proof cases
      case rm
      then have "nat r = Suc (nat (r - 1))" by arith
      then show ?thesis using rm Cons[of "r - 1"] unfolding StrItem
        by (simp only: trim_items_remove) simp
    next
      case z
      then have "nat r = 0" by simp
      then show ?thesis using z Cons[of r] unfolding StrItem
        by (simp add: trim_items_keep del: trim_items.simps)
    next
      case no
      then show ?thesis using Cons[of r] unfolding StrItem
        by (simp add: trim_items_keep del: trim_items.simps)
    qed
  next
    case (ToolResult es)
    let ?n = "length (filter entry_is_image es)"
    let ?r1 = "fst (trim_entries r es)"
    have c: "?r1 = r - int (min (nat r) ?n)"
      by (rule trim_entries_counter)
    have n: "nat ?r1 = nat r - ?n" unfolding c by arith
    have e: "filter (leaf_is_image P) (map LEntry (snd (trim_entries r es)))
            = drop (nat r) (map LEntry (filter entry_is_image es))"
      by (simp add: filter_map_LEntry trim_entries_images drop_map)
    have l: "length (map LEntry (filter entry_is_image es)) = ?n" by simp
    have "filter (leaf_is_image P) (concat (map item_leaves (snd (trim_items P r (c # cs)))))
        = filter (leaf_is_image P) (map LEntry (snd (trim_entries r es)))
          @ filter (leaf_is_image P) (concat (map item_leaves (snd (trim_items P ?r1 cs))))"
      unfolding ToolResult trim_items_tool by simp
    also have "\<dots> = drop (nat r) (map LEntry (filter entry_is_image es))
          @ drop (nat r - ?n) (filter (leaf_is_image P) (concat (map item_leaves cs)))"
      unfolding e Cons[of ?r1] n ..
    also have "\<dots> = drop (nat r) (map LEntry (filter entry_is_image es)
          @ filter (leaf_is_image P) (concat (map item_leaves cs)))"
      unfolding drop_append l ..
    finally show ?thesis unfolding ToolResult by (simp add: filter_map_LEntry)
  next
    case (OtherItem x)
    show ?thesis using Cons[of r] unfolding OtherItem
      by (simp add: trim_items_other del: trim_items.simps)
  qed
qed

lemma trim_items_strip:
  "concat (map (strip_item P) (snd (trim_items P r cs))) = concat (map (strip_item P) cs)"
proof (induction cs arbitrary: r)
  case Nil
  show ?case by simp
next
  case (Cons c cs)
  show ?case
  proof (cases c)
    case (StrItem s)
    show ?thesis
    proof (cases "P s \<and> r > 0")
      case True
      then show ?thesis using Cons[of "r - 1"] unfolding StrItem
        by (simp only: trim_items_remove) simp
    next
      case False
      then show ?thesis using Cons[of r] unfolding StrItem
        by (simp add: trim_items_keep del: trim_items.simps)
    qed
  next
    case (ToolResult es)
    show ?thesis using Cons[of "fst (trim_entries r es)"] unfolding ToolResult
      by (simp add: trim_items_tool trim_entries_others del: trim_items.simps)
  next
    case (OtherItem x)
    show ?thesis using Cons[of r] unfolding OtherItem
      by (simp add: trim_items_other del: trim_items.simps)
  qed
qed

lemma trim_items_subseq:
  "subseq (concat (map item_leaves (snd (trim_items P r cs)))) (concat (map item_leaves cs))"
proof (induction cs arbitrary: r)
  case Nil
  show ?case by simp
next
  case (Cons c cs)
  show ?case
  proof (cases c)
    case (StrItem s)
    show ?thesis
    proof (cases "P s \<and> r > 0")
      case True
      then show ?thesis using Cons[of "r - 1"] unfolding StrItem
        by (simp only: trim_items_remove) (simp add: list_emb_Cons)
    next
      case False
      then show ?thesis using Cons[of r] unfolding StrItem
        by (simp add: trim_items_keep del: trim_items.simps)
    qed
  next
    case (ToolResult es)
    have "subseq (map LEntry (snd (trim_entries r es))) (map LEntry es)"
      by (simp add: trim_entries_subseq subseq_map)
    then show ?thesis using Cons[of "fst (trim_entries r es)"] unfolding ToolResult
      by (simp add: trim_items_tool list_emb_append_mono del: trim_items.simps)
  next
    case (OtherItem x)
    show ?thesis using Cons[of r] unfolding OtherItem
      by (simp add: trim_items_other del: trim_items.simps)
  qed
qed


lemma trim_messages_list:
  "content m = ContentList cs \<Longrightarrow>
     trim_messages P r (m # ms) =
       m\<lparr>content := ContentList (snd (trim_items P r cs))\<rparr> # trim_messages P (fst (trim_items P r cs)) ms"
  by (simp add: case_prod_unfold)

lemma trim_messages_str:
  "content m = ContentStr s \<Longrightarrow> trim_messages P r (m # ms) = m # trim_messages P r ms"
  by simp

lemma total_images_leaves:
  "list_all has_list_content msgs \<Longrightarrow>
     total_images P msgs = length (filter (leaf_is_image P) (history_leaves msgs))"
proof (induction msgs)
  case Nil
  show ?case by (simp add: total_images_def history_leaves_def)
next
  case (Cons m ms)
  then obtain cs where cs: "content m = ContentList cs"
    by (cases "content m") (auto simp: has_list_content_def)
  from Cons.prems have "list_all has_list_content ms" by simp
  then have "total_images P ms = length (filter (leaf_is_image P) (history_leaves ms))"
    by (rule Cons.IH)
  then show ?case
    by (simp add: total_images_def history_leaves_def cs count_items_leaves)
qed

lemma trim_messages_list_content:
  "list_all has_list_content msgs \<Longrightarrow> list_all has_list_content (trim_messages P r msgs)"
proof (induction msgs arbitrary: r)
  case Nil
  show ?case by simp
next
  case (Cons m ms)
  then obtain cs where cs: "content m = ContentList cs"
    by (cases "content m") (auto simp: has_list_content_def)
  from Cons.prems have "list_all has_list_content ms" by simp
  then have "list_all has_list_content (trim_messages P (fst (trim_items P r cs)) ms)"
    by (rule Cons.IH)
  moreover have "has_list_content (m\<lparr>content := ContentList (snd (trim_items P r cs))\<rparr>)"
    by (simp add: has_list_content_def)
  ultimately show ?case
    by (simp add: trim_messages_list[OF cs] del: trim_messages.simps)
qed

lemma trim_messages_images:
  "list_all has_list_content msgs \<Longrightarrow>
     filter (leaf_is_image P) (history_leaves (trim_messages P r msgs))
       = drop (nat r) (filter (leaf_is_image P) (history_leaves msgs))"
proof (induction msgs arbitrary: r)
  case Nil
  show ?case by (simp add: history_leaves_def)
next
  case (Cons m ms)
  then obtain cs where cs: "content m = ContentList cs"
    by (cases "content m") (auto simp: has_list_content_def)
  let ?I = "filter (leaf_is_image P)"
  let ?n = "sum_list (map (count_item P) cs)"
  let ?r1 = "fst (trim_items P r cs)"
  have c: "?r1 = r - int (min (nat r) ?n)" by (rule trim_items_counter)
  have n: "nat ?r1 = nat r - ?n" unfolding c by arith
  have l: "length (?I (concat (map item_leaves cs))) = ?n" by (rule count_items_leaves)
  from Cons.prems have "list_all has_list_content ms" by simp
  then have ih: "?I (history_leaves (trim_messages P ?r1 ms)) = drop (nat ?r1) (?I (history_leaves ms))"
    by (rule Cons.IH)
  have "?I (history_leaves (trim_messages P r (m # ms)))
      = ?I (concat (map item_leaves (snd (trim_items P r cs))))
        @ ?I (history_leaves (trim_messages P ?r1 ms))"
    unfolding trim_messages_list[OF cs] by (simp add: history_leaves_def)
  also have "\<dots> = drop (nat r) (?I (concat (map item_leaves cs)))
        @ drop (nat r - ?n) (?I (history_leaves ms))"
    unfolding trim_items_images ih n ..
  also have "\<dots> = drop (nat r) (?I (concat (map item_leaves cs)) @ ?I (history_leaves ms))"
    unfolding drop_append l ..
  finally show ?case by (simp add: history_leaves_def cs)
qed

lemma trim_messages_strip: "strip_images P (trim_messages P r msgs) = strip_images P msgs"
proof (induction msgs arbitrary: r)
  case Nil
  show ?case by (simp add: strip_images_def)
next
  case (Cons m ms)
  show ?case
  proof (cases "content m")
    case (ContentList cs)
    have "strip_images P (trim_messages P (fst (trim_items P r cs)) ms) = strip_images P ms"
      by (rule Cons)
    then show ?thesis unfolding trim_messages_list[OF ContentList]
      by (simp add: strip_images_def trim_items_strip ContentList)
  next
    case (ContentStr s)
    have "strip_images P (trim_messages P r ms) = strip_images P ms" by (rule Cons)
    then show ?thesis unfolding trim_messages_str[OF ContentStr]
      by (simp add: strip_images_def)
  qed
qed

lemma trim_messages_subseq:
  "subseq (history_leaves (trim_messages P r msgs)) (history_leaves msgs)"
proof (induction msgs arbitrary: r)
  case Nil
  show ?case by (simp add: history_leaves_def)
next
  case (Cons m ms)
  show ?case
  proof (cases "content m")
    case (ContentList cs)
    have "subseq (history_leaves (trim_messages P (fst (trim_items P r cs)) ms)) (history_leaves ms)"
      by (rule Cons)
    then show ?thesis unfolding trim_messages_list[OF ContentList]
      by (simp add: history_leaves_def ContentList trim_items_subseq list_emb_append_mono)
  next
    case (ContentStr s)
    have "subseq (history_leaves (trim_messages P r ms)) (history_leaves ms)" by (rule Cons)
    then show ?thesis unfolding trim_messages_str[OF ContentStr]
      by (simp add: history_leaves_def ContentStr)
  qed
qed

lemma trim_messages_roles: "map role (trim_messages P r msgs) = map role msgs"
proof (induction msgs arbitrary: r)
  case Nil
  show ?case by simp
next
  case (Cons m ms)
  show ?case
  proof (cases "content m")
    case (ContentList cs)
    show ?thesis unfolding trim_messages_list[OF ContentList]
      using Cons[of "fst (trim_items P r cs)"] by simp
  next
    case (ContentStr s)
    show ?thesis unfolding trim_messages_str[OF ContentStr] using Cons[of r] by simp
  qed
qed

text \<open>
  Claim C2. For a history whose messages all carry a content list and for every
  \<open>keep \<ge> 0\<close>, after \<^verbatim>\<open>_maybe_filter_to_n_most_recent_images\<close> the number of images
  is \<open>min\<close> of the original number and \<open>keep\<close>; the images that remain are the most
  recent ones (the oldest are dropped first); the history with all images taken out is the
  same before and after, so no other item is removed or moved; the leaves that remain are
  a subsequence of the original leaves, so their relative order is unchanged; the messages
  of the caller's list stay in place with their roles; and with \<open>keep = None\<close> the
  history is returned as it is.
\<close>

theorem trim_keeps_most_recent_images:
  assumes keep: "0 \<le> keep" and lists: "list_all has_list_content messages"
  shows "int (total_images P (maybe_filter_to_n_most_recent_images P messages (Some keep)))
           = min (int (total_images P messages)) keep
       \<and> filter (leaf_is_image P)
           (history_leaves (maybe_filter_to_n_most_recent_images P messages (Some keep)))
           = drop (nat (int (total_images P messages) - keep))
               (filter (leaf_is_image P) (history_leaves messages))
       \<and> strip_images P (maybe_filter_to_n_most_recent_images P messages (Some keep))
           = strip_images P messages
       \<and> subseq (history_leaves (maybe_filter_to_n_most_recent_images P messages (Some keep)))
           (history_leaves messages)
       \<and> map role (maybe_filter_to_n_most_recent_images P messages (Some keep)) = map role messages
       \<and> maybe_filter_to_n_most_recent_images P messages None = messages"
proof -
  let ?T = "total_images P messages"
  let ?r = "int ?T - keep"
  let ?h = "trim_messages P ?r messages"
  have h: "maybe_filter_to_n_most_recent_images P messages (Some keep) = ?h"
    by (simp add: maybe_filter_to_n_most_recent_images_def)
  have img: "filter (leaf_is_image P) (history_leaves ?h)
      = drop (nat ?r) (filter (leaf_is_image P) (history_leaves messages))"
    by (rule trim_messages_images[OF lists])
  have "total_images P ?h = length (filter (leaf_is_image P) (history_leaves ?h))"
    by (rule total_images_leaves[OF trim_messages_list_content[OF lists]])
  also have "\<dots> = ?T - nat ?r"
    unfolding img by (simp add: total_images_leaves[OF lists])
  finally have "int (total_images P ?h) = min (int ?T) keep"
    using keep by arith
  then show ?thesis
    unfolding h using img
    by (simp add: trim_messages_strip trim_messages_subseq trim_messages_roles
        maybe_filter_to_n_most_recent_images_def)
qed

lemma example_trim:
  "maybe_filter_to_n_most_recent_images example_is_image_path example_history (Some 2) =
     [\<lparr>role = ''user'', content = ContentList [StrItem ''task'']\<rparr>,
      \<lparr>role = ''user'', content = ContentList
         [ToolResult [OtherEntry ''text''], StrItem ''b.png'', OtherItem ''block'']\<rparr>,
      \<lparr>role = ''user'', content = ContentList [StrItem ''c.png'']\<rparr>]"
  by (simp add: maybe_filter_to_n_most_recent_images_def example_history_def
      example_is_image_path_def total_images_def)

text \<open>The theorem at a history of three messages holding four images, with \<open>keep = 2\<close>.\<close>

theorem trim_keeps_most_recent_images_witness:
  "(0::int) \<le> 2 \<and> list_all has_list_content example_history
   \<and> int (total_images example_is_image_path
        (maybe_filter_to_n_most_recent_images example_is_image_path example_history (Some 2))) = 2
   \<and> total_images example_is_image_path example_history = 4"
proof -
  have l: "list_all has_list_content example_history"
    by (simp add: example_history_def has_list_content_def)
  have t: "total_images example_is_image_path example_history = 4"
    by (simp add: example_history_def example_is_image_path_def total_images_def)
  show ?thesis
    using trim_keeps_most_recent_images[of 2 example_history example_is_image_path, OF _ l] l t
    by simp
qed

end
